theory Spec2Isabelle
  imports Complex_Main
begin

section \<open>JavaScript values used by the helpers\<close>

text \<open>
  Strings are lists of characters, one \<^typ>\<open>char\<close> per code unit. An optional argument
  or field (\<open>string | undefined\<close>, a field the code guards with \<open>!= null\<close> or \<open>?.\<close>)
  is an \<^typ>\<open>'a option\<close>, \<open>None\<close> standing for \<open>null\<close>/\<open>undefined\<close>.

  A JavaScript number is \<open>NaN\<close>, one of the two infinities, or a finite value. The finite
  values are carried as exact rationals: rounding to binary64 and overflow are not part of
  the model, and nothing below depends on the digits of a finite result.
\<close>

datatype number = NaN | PosInfinity | NegInfinity | Finite rat

text \<open>Truthiness of a number: \<open>0\<close> and \<open>NaN\<close> are falsy.\<close>

fun truthy_number :: "number \<Rightarrow> bool" where
  "truthy_number NaN = False"
| "truthy_number (Finite x) = (x \<noteq> 0)"
| "truthy_number _ = True"

text \<open>Truthiness of an optional number field, as in \<open>if (config.topK)\<close>.\<close>

fun truthy :: "number option \<Rightarrow> bool" where
  "truthy None = False"
| "truthy (Some n) = truthy_number n"

text \<open>Strict equality \<open>===\<close> on numbers: \<open>NaN\<close> equals nothing, itself included.\<close>

definition strict_eq :: "number \<Rightarrow> number \<Rightarrow> bool" where
  "strict_eq a b = (a \<noteq> NaN \<and> b \<noteq> NaN \<and> a = b)"

text \<open>The global \<open>isNaN\<close> on a number.\<close>

definition isNaN :: "number \<Rightarrow> bool" where
  "isNaN a = (a = NaN)"

text \<open>Multiplication \<open>*\<close>; an infinity times zero is \<open>NaN\<close>.\<close>

fun sign_of :: "number \<Rightarrow> int" where
  "sign_of (Finite x) = (if x < 0 then -1 else if x = 0 then 0 else 1)"
| "sign_of PosInfinity = 1"
| "sign_of NegInfinity = -1"
| "sign_of NaN = 0"

definition number_times :: "number \<Rightarrow> number \<Rightarrow> number" where
  "number_times a b =
     (case (a, b) of
        (NaN, _) \<Rightarrow> NaN
      | (_, NaN) \<Rightarrow> NaN
      | (Finite x, Finite y) \<Rightarrow> Finite (x * y)
      | _ \<Rightarrow> (let s = sign_of a * sign_of b
              in if s = 0 then NaN else if s < 0 then NegInfinity else PosInfinity))"

text \<open>The relational operator \<open><\<close>; any comparison with \<open>NaN\<close> is false.\<close>

fun number_less :: "number \<Rightarrow> number \<Rightarrow> bool" where
  "number_less NaN _ = False"
| "number_less _ NaN = False"
| "number_less (Finite x) (Finite y) = (x < y)"
| "number_less NegInfinity b = (b \<noteq> NegInfinity)"
| "number_less a PosInfinity = (a \<noteq> PosInfinity)"
| "number_less _ _ = False"

subsection \<open>Printing and reading numbers\<close>

definition digit_char :: "nat \<Rightarrow> char" where
  "digit_char d = ''0123456789'' ! (d mod 10)"

function digits :: "nat \<Rightarrow> string" where
  "digits n = (if n < 10 then [digit_char n] else digits (n div 10) @ [digit_char n])"
  by pat_completeness auto
termination
  by (relation "measure (\<lambda>n. n)") auto

text \<open>
  \<open>Number.prototype.toFixed(f)\<close>: the nearest multiple of \<open>10^-f\<close>, the larger one on a
  tie, printed with exactly \<open>f\<close> decimals. (For magnitudes of \<open>10^21\<close> and above JavaScript
  switches to exponent notation, which is not modelled.)
\<close>

definition toFixed :: "nat \<Rightarrow> number \<Rightarrow> string" where
  "toFixed f a =
     (case a of
        NaN \<Rightarrow> ''NaN''
      | PosInfinity \<Rightarrow> ''Infinity''
      | NegInfinity \<Rightarrow> ''-Infinity''
      | Finite x \<Rightarrow>
          (let n = nat \<lfloor>\<bar>x\<bar> * 10 ^ f + 1 / 2\<rfloor>;
               m = digits n;
               m = (if f = 0 then m else replicate (Suc f - length m) CHR ''0'' @ m);
               k = length m
           in (if x < 0 then ''-'' else '''') @
              (if f = 0 then m else take (k - f) m @ ''.'' @ drop (k - f) m)))"

definition is_digit :: "char \<Rightarrow> bool" where
  "is_digit c = (let n = (of_char c :: nat) in 48 \<le> n \<and> n \<le> 57)"

definition is_whitespace :: "char \<Rightarrow> bool" where
  "is_whitespace c = (let n = (of_char c :: nat) in (9 \<le> n \<and> n \<le> 13) \<or> n = 32 \<or> n = 160)"

definition digits_value :: "string \<Rightarrow> nat" where
  "digits_value ds = foldl (\<lambda>acc c. 10 * acc + (of_char c - 48)) 0 ds"

text \<open>
  The exponent part of a decimal literal, if one starts the input: \<open>e\<close> or \<open>E\<close>, an
  optional sign and at least one digit. Anything else is not part of the literal.
\<close>

definition exponent_part :: "string \<Rightarrow> int" where
  "exponent_part s =
     (case s of
        [] \<Rightarrow> 0
      | e # r \<Rightarrow>
          if e = CHR ''e'' \<or> e = CHR ''E'' then
            (let neg = (r \<noteq> [] \<and> hd r = CHR ''-'');
                 r = (if r \<noteq> [] \<and> (hd r = CHR ''-'' \<or> hd r = CHR ''+'') then tl r else r);
                 ds = takeWhile is_digit r
             in if ds = [] then 0
                else if neg then - int (digits_value ds) else int (digits_value ds))
          else 0)"

definition pow10 :: "int \<Rightarrow> rat" where
  "pow10 e = (if e < 0 then 1 / 10 ^ nat (- e) else 10 ^ nat e)"

text \<open>
  The global \<open>parseFloat\<close>: leading white space is skipped, then the longest prefix that
  is a decimal literal (or \<open>Infinity\<close>) is read; if there is none the result is \<open>NaN\<close>.
\<close>

definition parseFloat :: "string \<Rightarrow> number" where
  "parseFloat input =
     (let s = dropWhile is_whitespace input;
          neg = (s \<noteq> [] \<and> hd s = CHR ''-'');
          s = (if s \<noteq> [] \<and> (hd s = CHR ''-'' \<or> hd s = CHR ''+'') then tl s else s)
      in if take 8 s = ''Infinity'' then (if neg then NegInfinity else PosInfinity)
         else
           (let ip = takeWhile is_digit s;
                r = dropWhile is_digit s;
                dot = (r \<noteq> [] \<and> hd r = CHR ''.'');
                fp = (if dot then takeWhile is_digit (tl r) else []);
                r = (if dot then dropWhile is_digit (tl r) else r)
            in if ip = [] \<and> fp = [] then NaN
               else
                 (let mant = of_nat (digits_value ip) + of_nat (digits_value fp) / 10 ^ length fp;
                      v = mant * pow10 (exponent_part r)
                  in Finite (if neg then - v else v))))"

text \<open>Opaque JSON data (schemas, tool parameters, metadata).\<close>

datatype json =
    JNull
  | JBool bool
  | JNumber number
  | JString string
  | JArray "json list"
  | JObject "(string \<times> json) list"

section \<open>Strings and the placeholder pattern\<close>

text \<open>
  \<open>String.prototype.split\<close> with a one-character separator. The result is never empty:
  the empty string splits into one empty segment.
\<close>

fun js_split :: "char \<Rightarrow> string \<Rightarrow> string list" where
  "js_split sep [] = [[]]"
| "js_split sep (c # cs) =
     (if c = sep then [] # js_split sep cs
      else (case js_split sep cs of [] \<Rightarrow> [[c]] | seg # segs \<Rightarrow> (c # seg) # segs))"

text \<open>\<open>String.prototype.slice(b, e)\<close>; a negative index counts from the end.\<close>

definition js_slice :: "int \<Rightarrow> int \<Rightarrow> string \<Rightarrow> string" where
  "js_slice b e s =
     (let n = int (length s);
          from = (if b < 0 then max (n + b) 0 else min b n);
          to = (if e < 0 then max (n + e) 0 else min e n)
      in take (nat (to - from)) (drop (nat from) s))"

text \<open>The class \<open>\w\<close> of the pattern (no unicode flag): ASCII letters, digits, underscore.\<close>

definition is_word_char :: "char \<Rightarrow> bool" where
  "is_word_char c =
     (let n = (of_char c :: nat)
      in (48 \<le> n \<and> n \<le> 57) \<or> (65 \<le> n \<and> n \<le> 90) \<or> n = 95 \<or> (97 \<le> n \<and> n \<le> 122))"

text \<open>
  One attempt of the pattern \<open>/\{\{(\w+)\}\}/\<close> at the start of the input. The greedy
  \<open>\w+\<close> takes the whole run of word characters; giving characters back cannot help, since
  the next character would still be a word character and not \<open>}\<close>. The result is the
  matched text, capture group 1, and the input after the match.
\<close>

fun match_here :: "string \<Rightarrow> (string \<times> string \<times> string) option" where
  "match_here (a # b # cs) =
     (if a = CHR ''{'' \<and> b = CHR ''{'' then
        (let w = takeWhile is_word_char cs; r = dropWhile is_word_char cs
         in if w \<noteq> [] \<and> take 2 r = ''}}''
            then Some (''{{'' @ w @ ''}}'', w, drop 2 r) else None)
      else None)"
| "match_here _ = None"

text \<open>
  The global (\<open>g\<close>) iteration of the pattern over a string, left to right: where the
  pattern matches, the match is recorded and the scan goes on after it; where it does not,
  the scan moves one character on.
\<close>

datatype scan_item = Unmatched char | Matched string string

function scan :: "string \<Rightarrow> scan_item list" where
  "scan [] = []"
| "scan (c # cs) =
     (case match_here (c # cs) of
        Some (m, key, rest) \<Rightarrow> Matched m key # scan rest
      | None \<Rightarrow> Unmatched c # scan cs)"
  by pat_completeness auto
termination
proof (relation "measure length")
  show "wf (measure length)" by simp
next
  fix c cs x2 m y key rest
  assume "match_here (c # cs) = Some x2" and "(m, y) = x2" and "(key, rest) = y"
  then have "match_here (c # cs) = Some (m, key, rest)" by simp
  moreover have "length (dropWhile is_word_char xs) - 2 < Suc (Suc (length xs))" for xs
    using length_dropWhile_le [of is_word_char xs] by arith
  ultimately have "length rest < length (c # cs)"
    by (cases cs) (auto simp: Let_def split: if_splits)
  then show "(rest, c # cs) \<in> measure length" by simp
next
  fix c :: char and cs
  show "(cs, c # cs) \<in> measure length" by simp
qed

text \<open>
  \<open>String.prototype.replace(pattern, fn)\<close> with the global pattern: every match is
  replaced by what the callback returns for (match, group 1); the callback's result is
  inserted as it is.
\<close>

definition replace_all :: "(string \<Rightarrow> string \<Rightarrow> string) \<Rightarrow> string \<Rightarrow> string" where
  "replace_all fn s =
     concat (map (\<lambda>it. case it of Unmatched c \<Rightarrow> [c] | Matched m key \<Rightarrow> fn m key) (scan s))"

text \<open>
  \<open>String.prototype.match(pattern)\<close> with the global pattern: the matched texts in order,
  or \<open>null\<close> when there is no match.
\<close>

definition match_all :: "string \<Rightarrow> string list option" where
  "match_all s =
     (let ms = concat (map (\<lambda>it. case it of Unmatched c \<Rightarrow> [] | Matched m key \<Rightarrow> [m]) (scan s))
      in if ms = [] then None else Some ms)"

text \<open>Capture group 1 of every match, in the order of the scan.\<close>

definition captured :: "string \<Rightarrow> string list" where
  "captured s =
     concat (map (\<lambda>it. case it of Unmatched c \<Rightarrow> [] | Matched m key \<Rightarrow> [key]) (scan s))"


text \<open>\<open>[...new Set(xs)]\<close>: a set keeps insertion order and ignores a value it already has.\<close>

definition set_add :: "'a list \<Rightarrow> 'a \<Rightarrow> 'a list" where
  "set_add acc x = (if x \<in> set acc then acc else acc @ [x])"

definition new_Set :: "'a list \<Rightarrow> 'a list" where
  "new_Set xs = foldl set_add [] xs"

section \<open>utils.ts\<close>

definition extractTemplateVars :: "string option \<Rightarrow> string list" where
  "extractTemplateVars template =
     (let matches = (case template of
                       None \<Rightarrow> []
                     | Some t \<Rightarrow> (case match_all t of None \<Rightarrow> [] | Some ms \<Rightarrow> ms))
      in new_Set (map (js_slice 2 (-2)) matches))"

text \<open>
  The variables object is a plain object (the builders make it with an object spread). Its
  own properties are a map from names to strings. The read \<open>vars[key]\<close> looks at the own
  properties first and then at what every plain object inherits from \<open>Object.prototype\<close>;
  only when both have nothing is the result \<open>undefined\<close>, the case in which \<open>??\<close> takes its
  right-hand side. An inherited value is a built-in function (or, for \<open>__proto__\<close>, the
  prototype object); \<open>replace\<close> inserts it as the string it converts to, given here as
  Node prints it.
\<close>

definition native_function :: "string \<Rightarrow> string" where
  "native_function name = ''function '' @ name @ ''() { [native code] }''"

definition object_prototype :: "string \<rightharpoonup> string" where
  "object_prototype =
     map_of
       [(''constructor'', native_function ''Object''),
        (''__defineGetter__'', native_function ''__defineGetter__''),
        (''__defineSetter__'', native_function ''__defineSetter__''),
        (''hasOwnProperty'', native_function ''hasOwnProperty''),
        (''__lookupGetter__'', native_function ''__lookupGetter__''),
        (''__lookupSetter__'', native_function ''__lookupSetter__''),
        (''isPrototypeOf'', native_function ''isPrototypeOf''),
        (''propertyIsEnumerable'', native_function ''propertyIsEnumerable''),
        (''toString'', native_function ''toString''),
        (''valueOf'', native_function ''valueOf''),
        (''__proto__'', ''[object Object]''),
        (''toLocaleString'', native_function ''toLocaleString'')]"

definition get_property :: "(string \<rightharpoonup> string) \<Rightarrow> string \<Rightarrow> string option" where
  "get_property obj key =
     (case obj key of Some v \<Rightarrow> Some v | None \<Rightarrow> object_prototype key)"

definition resolveTemplate :: "string option \<Rightarrow> (string \<rightharpoonup> string) \<Rightarrow> string" where
  "resolveTemplate template vars =
     (case template of
        None \<Rightarrow> []
      | Some t \<Rightarrow>
          if t = [] then []
          else replace_all
                 (\<lambda>_ key. case get_property vars key of
                              Some v \<Rightarrow> v
                            | None \<Rightarrow> ''{{'' @ key @ ''}}'') t)"

text \<open>
  On a price that parses, the two functions below compute with the exact decimal value;
  the code's result can differ from it where binary64 rounds, underflows or overflows.
\<close>

definition formatPrice :: "string option \<Rightarrow> string" where
  "formatPrice priceStr =
     (case priceStr of
        None \<Rightarrow> ''free''
      | Some s \<Rightarrow>
          if s = [] \<or> s = ''0'' then ''free''
          else (let p = number_times (parseFloat s) (Finite 1000000)
                in if number_less p (Finite (1 / 100)) then ''<$0.01/M''
                   else ''$'' @ toFixed 2 p @ ''/M''))"

definition priceToCostPerMillion :: "string option \<Rightarrow> number option" where
  "priceToCostPerMillion priceStr =
     (case priceStr of
        None \<Rightarrow> None
      | Some s \<Rightarrow>
          if s = [] \<or> s = ''0'' then None
          else (let perToken = parseFloat s
                in if isNaN perToken \<or> strict_eq perToken (Finite 0) then None
                   else Some (number_times perToken (Finite 1000000))))"

section \<open>types.ts\<close>

datatype ResponseFormat = format_text | format_json_object | format_json_schema
datatype ToolChoice = choice_auto | choice_none | choice_required
datatype ReasoningEffort = effort_low | effort_medium | effort_high

record ToolFunction =
  name :: string
  description :: "string option"
  parameters :: "json option"

text \<open>
  The \<open>type\<close> tag of a tool is kept as the string it is at run time, and \<open>function\<close> may
  be missing: the Anthropic converter tests both.
\<close>

record ToolDefinition =
  tool_type :: string
  tool_function :: "ToolFunction option"

record JsonSchema =
  schema_name :: string
  strict :: "bool option"
  schema :: json

record PromptConfig =
  id_ :: string
  config_name :: string
  model :: string
  systemPrompt :: string
  userPromptTemplate :: "string option"
  temperature :: "number option"
  maxTokens :: "number option"
  topP :: "number option"
  topK :: "number option"
  frequencyPenalty :: "number option"
  presencePenalty :: "number option"
  repetitionPenalty :: "number option"
  minP :: "number option"
  stopSequences :: "string list option"
  responseFormat :: ResponseFormat
  jsonSchema :: "JsonSchema option"
  tools :: "ToolDefinition list option"
  toolChoice :: ToolChoice
  reasoning :: bool
  reasoningEffort :: "ReasoningEffort option"
  sampleInputs :: "string \<rightharpoonup> string"
  metadata :: "string \<rightharpoonup> json"

record Architecture =
  modality :: "string option"
  input_modalities :: "string list option"
  output_modalities :: "string list option"
  tokenizer :: "string option"

record Pricing =
  prompt :: "string option"
  completion :: "string option"

record TopProvider =
  top_context_length :: "number option"
  max_completion_tokens :: "number option"

record OpenRouterModel =
  model_id :: string
  model_name :: string
  context_length :: number
  architecture :: "Architecture option"
  pricing :: "Pricing option"
  top_provider :: "TopProvider option"
  supported_parameters :: "string list option"

datatype Role = role_system | role_user | role_assistant

record Message =
  role :: Role
  content :: string

record ResponseFormatPayload =
  rf_type :: string
  rf_json_schema :: "JsonSchema option"

record OpenRouterPayload =
  or_model :: string
  or_messages :: "Message list"
  or_temperature :: "number option"
  or_max_tokens :: "number option"
  or_top_p :: "number option"
  or_top_k :: "number option"
  or_frequency_penalty :: "number option"
  or_presence_penalty :: "number option"
  or_repetition_penalty :: "number option"
  or_min_p :: "number option"
  or_stop :: "string list option"
  or_response_format :: "ResponseFormatPayload option"
  or_tools :: "ToolDefinition list option"
  or_tool_choice :: "ToolChoice option"
  or_reasoning :: "ReasoningEffort option"

text \<open>\<open>xs?.length\<close> as a condition: the list is there and not empty.\<close>

fun has_length :: "'a list option \<Rightarrow> bool" where
  "has_length None = False"
| "has_length (Some xs) = (xs \<noteq> [])"

section \<open>Building a payload object\<close>

text \<open>
  The builders create the payload object and then assign its optional fields one guarded
  statement at a time. \<open>if (c) { payload.f = v }\<close> is \<open>assign_if c (\<lambda>p. p\<lparr>f := v\<rparr>)\<close>
  applied to the payload so far; \<open>if (c) { ... } else ...\<close> is \<open>assign_if_else\<close>.
\<close>

definition assign_if_else :: "bool \<Rightarrow> ('p \<Rightarrow> 'p) \<Rightarrow> ('p \<Rightarrow> 'p) \<Rightarrow> 'p \<Rightarrow> 'p" where
  "assign_if_else c then_part else_part payload =
     (if c then then_part payload else else_part payload)"

definition assign_if :: "bool \<Rightarrow> ('p \<Rightarrow> 'p) \<Rightarrow> 'p \<Rightarrow> 'p" where
  "assign_if c then_part payload = (if c then then_part payload else payload)"

section \<open>helpers/openrouter.ts\<close>

text \<open>
  The helper's own copy of \<open>resolveTemplate\<close> is the one of utils.ts, character for
  character; the builders below call \<^const>\<open>resolveTemplate\<close>.
\<close>

definition toOpenRouterPayload :: "PromptConfig \<Rightarrow> (string \<rightharpoonup> string) \<Rightarrow> OpenRouterPayload" where
  "toOpenRouterPayload config variables =
     (let mergedVars = sampleInputs config ++ variables;
          resolvedUserPrompt = resolveTemplate (userPromptTemplate config) mergedVars;
          messages = [];
          messages = assign_if (systemPrompt config \<noteq> [])
                       (\<lambda>ms. ms @ [\<lparr>role = role_system, content = systemPrompt config\<rparr>]) messages;
          messages = assign_if (resolvedUserPrompt \<noteq> [])
                       (\<lambda>ms. ms @ [\<lparr>role = role_user, content = resolvedUserPrompt\<rparr>]) messages;
          payload = \<lparr>or_model = model config, or_messages = messages,
                     or_temperature = None, or_max_tokens = None, or_top_p = None,
                     or_top_k = None, or_frequency_penalty = None, or_presence_penalty = None,
                     or_repetition_penalty = None, or_min_p = None, or_stop = None,
                     or_response_format = None, or_tools = None, or_tool_choice = None,
                     or_reasoning = None\<rparr>;
          payload = assign_if (temperature config \<noteq> None)
                      (\<lambda>p. p\<lparr>or_temperature := temperature config\<rparr>) payload;
          payload = assign_if (truthy (maxTokens config))
                      (\<lambda>p. p\<lparr>or_max_tokens := maxTokens config\<rparr>) payload;
          payload = assign_if
                      (topP config \<noteq> None \<and> \<not> strict_eq (the (topP config)) (Finite 1))
                      (\<lambda>p. p\<lparr>or_top_p := topP config\<rparr>) payload;
          payload = assign_if (truthy (topK config))
                      (\<lambda>p. p\<lparr>or_top_k := topK config\<rparr>) payload;
          payload = assign_if (truthy (frequencyPenalty config))
                      (\<lambda>p. p\<lparr>or_frequency_penalty := frequencyPenalty config\<rparr>) payload;
          payload = assign_if (truthy (presencePenalty config))
                      (\<lambda>p. p\<lparr>or_presence_penalty := presencePenalty config\<rparr>) payload;
          payload = assign_if
                      (truthy (repetitionPenalty config)
                         \<and> \<not> strict_eq (the (repetitionPenalty config)) (Finite 1))
                      (\<lambda>p. p\<lparr>or_repetition_penalty := repetitionPenalty config\<rparr>) payload;
          payload = assign_if (truthy (minP config))
                      (\<lambda>p. p\<lparr>or_min_p := minP config\<rparr>) payload;
          payload = assign_if (has_length (stopSequences config))
                      (\<lambda>p. p\<lparr>or_stop := stopSequences config\<rparr>) payload;
          payload = assign_if_else (responseFormat config = format_json_object)
                      (\<lambda>p. p\<lparr>or_response_format :=
                              Some \<lparr>rf_type = ''json_object'', rf_json_schema = None\<rparr>\<rparr>)
                      (assign_if
                         (responseFormat config = format_json_schema \<and> jsonSchema config \<noteq> None)
                         (\<lambda>p. p\<lparr>or_response_format :=
                                 Some \<lparr>rf_type = ''json_schema'',
                                       rf_json_schema = jsonSchema config\<rparr>\<rparr>))
                      payload;
          payload = assign_if (has_length (tools config))
                      (\<lambda>p. assign_if (toolChoice config \<noteq> choice_auto)
                             (\<lambda>p. p\<lparr>or_tool_choice := Some (toolChoice config)\<rparr>)
                             (p\<lparr>or_tools := tools config\<rparr>))
                      payload;
          payload = assign_if (reasoning config)
                      (\<lambda>p. p\<lparr>or_reasoning :=
                              Some (case reasoningEffort config of
                                      Some e \<Rightarrow> e
                                    | None \<Rightarrow> effort_medium)\<rparr>)
                      payload
      in payload)"

section \<open>helpers/anthropic.ts\<close>

datatype AnthropicRole = anthropic_user | anthropic_assistant

text \<open>The string a role is on the wire.\<close>

fun role_string :: "AnthropicRole \<Rightarrow> string" where
  "role_string anthropic_user = ''user''"
| "role_string anthropic_assistant = ''assistant''"

record AnthropicMessage =
  a_role :: AnthropicRole
  a_content :: string

record AnthropicTool =
  at_name :: string
  at_description :: string
  input_schema :: json

datatype AnthropicToolChoice = type_auto | type_any | type_none | type_tool string

record AnthropicPayload =
  an_model :: string
  an_messages :: "AnthropicMessage list"
  an_max_tokens :: number
  an_system :: "string option"
  an_temperature :: "number option"
  an_top_p :: "number option"
  an_top_k :: "number option"
  an_stop_sequences :: "string list option"
  an_tools :: "AnthropicTool list option"
  an_tool_choice :: "AnthropicToolChoice option"

definition convertTools :: "ToolDefinition list \<Rightarrow> AnthropicTool list" where
  "convertTools ts =
     map (\<lambda>t. let f = the (tool_function t)
               in \<lparr>at_name = name f,
                   at_description = (case description f of
                                       None \<Rightarrow> []
                                     | Some d \<Rightarrow> d),
                   input_schema = (case parameters f of None \<Rightarrow> JObject [] | Some p \<Rightarrow> p)\<rparr>)
         (filter (\<lambda>t. tool_type t = ''function'' \<and> tool_function t \<noteq> None) ts)"

definition toAnthropicPayload :: "PromptConfig \<Rightarrow> (string \<rightharpoonup> string) \<Rightarrow> AnthropicPayload" where
  "toAnthropicPayload config variables =
     (let mergedVars = sampleInputs config ++ variables;
          resolvedUserPrompt = resolveTemplate (userPromptTemplate config) mergedVars;
          messages = [];
          messages = assign_if (resolvedUserPrompt \<noteq> [])
                       (\<lambda>ms. ms @ [\<lparr>a_role = anthropic_user, a_content = resolvedUserPrompt\<rparr>])
                       messages;
          model = model config;
          model = assign_if (CHR ''/'' \<in> set model)
                    (\<lambda>m. case rev (js_split CHR ''/'' m) of
                            [] \<Rightarrow> m
                          | popped # _ \<Rightarrow> if popped \<noteq> [] then popped else m)
                    model;
          payload = \<lparr>an_model = model, an_messages = messages,
                     an_max_tokens = (if truthy (maxTokens config)
                                      then the (maxTokens config) else Finite 4096),
                     an_system = None, an_temperature = None, an_top_p = None,
                     an_top_k = None, an_stop_sequences = None, an_tools = None,
                     an_tool_choice = None\<rparr>;
          payload = assign_if (systemPrompt config \<noteq> [])
                      (\<lambda>p. p\<lparr>an_system := Some (systemPrompt config)\<rparr>) payload;
          payload = assign_if (temperature config \<noteq> None)
                      (\<lambda>p. p\<lparr>an_temperature := temperature config\<rparr>) payload;
          payload = assign_if
                      (topP config \<noteq> None \<and> \<not> strict_eq (the (topP config)) (Finite 1))
                      (\<lambda>p. p\<lparr>an_top_p := topP config\<rparr>) payload;
          payload = assign_if (truthy (topK config))
                      (\<lambda>p. p\<lparr>an_top_k := topK config\<rparr>) payload;
          payload = assign_if (has_length (stopSequences config))
                      (\<lambda>p. p\<lparr>an_stop_sequences := stopSequences config\<rparr>) payload;
          payload = assign_if (has_length (tools config))
                      (\<lambda>p. assign_if_else (toolChoice config = choice_required)
                             (\<lambda>p. p\<lparr>an_tool_choice := Some type_any\<rparr>)
                             (assign_if (toolChoice config = choice_none)
                                (\<lambda>p. p\<lparr>an_tool_choice := Some type_none\<rparr>))
                             (p\<lparr>an_tools := Some (convertTools (the (tools config)))\<rparr>))
                      payload
      in payload)"

section \<open>helpers/langchain.ts\<close>

definition extractVariables :: "string option \<Rightarrow> string list" where
  "extractVariables template =
     (let matches = (case template of
                       None \<Rightarrow> []
                     | Some t \<Rightarrow> (case match_all t of None \<Rightarrow> [] | Some ms \<Rightarrow> ms))
      in new_Set (map (js_slice 2 (-2)) matches))"

text \<open>
  \<open>modelId.split('/')[0] || 'unknown'\<close>: the first segment, unless it is the empty
  string (or missing), which is falsy.
\<close>

definition getProvider :: "string \<Rightarrow> string" where
  "getProvider modelId =
     (case js_split CHR ''/'' modelId of
        [] \<Rightarrow> ''unknown''
      | seg # _ \<Rightarrow> if seg \<noteq> [] then seg else ''unknown'')"

text \<open>
  The base configuration of the tests of the OpenRouter helper, with the fields that
  \<open>PromptConfig\<close> declares in types.ts.
\<close>

definition baseConfig :: PromptConfig where
  "baseConfig =
     \<lparr>id_ = ''test'', config_name = ''Test'', model = ''openai/gpt-4o'',
      systemPrompt = [], userPromptTemplate = Some [],
      temperature = Some (Finite 1), maxTokens = Some (Finite 4096),
      topP = Some (Finite 1), topK = Some (Finite 0),
      frequencyPenalty = Some (Finite 0), presencePenalty = Some (Finite 0),
      repetitionPenalty = Some (Finite 1), minP = Some (Finite 0),
      stopSequences = Some [], responseFormat = format_text, jsonSchema = None,
      tools = Some [], toolChoice = choice_auto, reasoning = False,
      reasoningEffort = Some effort_medium, sampleInputs = Map.empty,
      metadata = Map.empty\<rparr>"

section \<open>prompt-config.ts: which parameters the selected model supports\<close>

definition selectedModel :: "OpenRouterModel list \<Rightarrow> PromptConfig option \<Rightarrow> OpenRouterModel option" where
  "selectedModel models val =
     find (\<lambda>m. case val of None \<Rightarrow> False | Some v \<Rightarrow> model_id m = model v) models"

definition supportedParams :: "OpenRouterModel option \<Rightarrow> string list" where
  "supportedParams selected =
     (case selected of
        None \<Rightarrow> []
      | Some m \<Rightarrow> (case supported_parameters m of None \<Rightarrow> [] | Some ps \<Rightarrow> ps))"

text \<open>The closure \<open>has\<close> of the parameters panel, over the list \<open>sp\<close> it captures.\<close>

definition has :: "string list \<Rightarrow> string \<Rightarrow> bool" where
  "has sp p = (length sp = 0 \<or> p \<in> set sp)"

section \<open>Notions of the specification\<close>

text \<open>
  The specification speaks of a placeholder, \<open>{{\<close> + one or more word characters + \<open>}}\<close>,
  and of a sequence in first-occurrence order with duplicates removed. These two are
  written here from its words, to state the properties of the code against them.
\<close>

definition placeholder :: "string \<Rightarrow> string" where
  "placeholder key = ''{{'' @ key @ ''}}''"

definition is_identifier :: "string \<Rightarrow> bool" where
  "is_identifier key = (key \<noteq> [] \<and> list_all is_word_char key)"

function first_occurrences :: "'a list \<Rightarrow> 'a list" where
  "first_occurrences [] = []"
| "first_occurrences (x # xs) = x # first_occurrences (filter (\<lambda>y. y \<noteq> x) xs)"
  by pat_completeness auto
termination
  by (relation "measure length") (auto simp: less_Suc_eq_le)

section \<open>Splitting at a separator\<close>

lemma js_split_not_Nil: "js_split sep s \<noteq> []"
  by (induction s) (auto split: list.splits)

lemma hd_js_split: "hd (js_split sep s) = takeWhile (\<lambda>c. c \<noteq> sep) s"
  by (induction s) (auto split: list.splits simp: js_split_not_Nil)

lemma js_split_single: "sep \<notin> set s \<Longrightarrow> js_split sep s = [s]"
  by (induction s) auto

lemma js_split_more: "sep \<in> set s \<Longrightarrow> tl (js_split sep s) \<noteq> []"
  by (induction s) (auto split: list.splits simp: js_split_not_Nil)

lemma takeWhile_snoc_stop: "\<not> P y \<Longrightarrow> takeWhile P (xs @ [y]) = takeWhile P xs"
  by (induction xs) auto

lemma last_js_split: "last (js_split sep s) = rev (takeWhile (\<lambda>c. c \<noteq> sep) (rev s))"
proof (induction s)
  case Nil
  then show ?case by simp
next
  case (Cons c cs)
  show ?case
  proof (cases "c = sep")
    case True
    then show ?thesis using Cons by (simp add: js_split_not_Nil takeWhile_snoc_stop)
  next
    case False
    show ?thesis
    proof (cases "sep \<in> set cs")
      case True
      then obtain seg segs where s: "js_split sep cs = seg # segs" and "segs \<noteq> []"
        using js_split_more [of sep cs] by (cases "js_split sep cs") auto
      moreover have "takeWhile (\<lambda>c. c \<noteq> sep) (rev cs @ [c]) = takeWhile (\<lambda>c. c \<noteq> sep) (rev cs)"
        using True by (simp add: takeWhile_append1)
      ultimately show ?thesis using Cons False by simp
    next
      case no: False
      then have "takeWhile (\<lambda>c. c \<noteq> sep) (rev (c # cs)) = rev (c # cs)"
        using False unfolding takeWhile_eq_all_conv by auto
      then have "rev (takeWhile (\<lambda>c. c \<noteq> sep) (rev (c # cs))) = c # cs"
        by (simp only: rev_rev_ident)
      moreover have "js_split sep (c # cs) = [c # cs]"
        using no False by (simp add: js_split_single)
      ultimately show ?thesis by (simp only: last.simps refl if_True)
    qed
  qed
qed

section \<open>Reading a field of a payload after guarded assignments\<close>

lemma assign_if_other: "(\<And>q. sel (f q) = sel q) \<Longrightarrow> sel (assign_if c f p) = sel p"
  by (simp add: assign_if_def)

lemma assign_if_else_other:
  "(\<And>q. sel (f q) = sel q) \<Longrightarrow> (\<And>q. sel (g q) = sel q)
   \<Longrightarrow> sel (assign_if_else c f g p) = sel p"
  by (simp add: assign_if_else_def)

lemma assign_if_same: "sel (assign_if c f p) = (if c then sel (f p) else sel p)"
  by (simp add: assign_if_def)

lemma or_top_p_eq:
  "or_top_p (toOpenRouterPayload c v) =
     (if topP c \<noteq> None \<and> topP c \<noteq> Some (Finite 1) then topP c else None)"
  by (simp add: toOpenRouterPayload_def Let_def assign_if_other [of or_top_p]
      assign_if_else_other [of or_top_p] assign_if_same [of or_top_p _ "or_top_p_update h" for h])
     (auto simp: strict_eq_def)

lemma or_temperature_eq: "or_temperature (toOpenRouterPayload c v) = temperature c"
  by (simp add: toOpenRouterPayload_def Let_def assign_if_other [of or_temperature]
      assign_if_else_other [of or_temperature]
      assign_if_same [of or_temperature _ "or_temperature_update h" for h])

lemma an_model_eq:
  "an_model (toAnthropicPayload c v) =
     (if last (js_split CHR ''/'' (model c)) = [] then model c
      else last (js_split CHR ''/'' (model c)))"
proof -
  have "an_model (toAnthropicPayload c v) =
     assign_if (CHR ''/'' \<in> set (model c))
       (\<lambda>m. case rev (js_split CHR ''/'' m) of [] \<Rightarrow> m
             | popped # _ \<Rightarrow> if popped \<noteq> [] then popped else m) (model c)"
    by (simp add: toAnthropicPayload_def Let_def assign_if_other [of an_model]
      assign_if_else_other [of an_model])
  also have "\<dots> = (if last (js_split CHR ''/'' (model c)) = [] then model c
                    else last (js_split CHR ''/'' (model c)))"
    using js_split_not_Nil [of "CHR ''/''" "model c"] js_split_single [of "CHR ''/''" "model c"]
    by (cases "rev (js_split CHR ''/'' (model c))")
       (auto simp: assign_if_def last_rev hd_rev [symmetric]
             simp del: rev_is_Nil_conv rev_rev_ident)
  finally show ?thesis .
qed

lemma an_max_tokens_eq:
  "an_max_tokens (toAnthropicPayload c v) =
     (if truthy (maxTokens c) then the (maxTokens c) else Finite 4096)"
  by (simp add: toAnthropicPayload_def Let_def assign_if_other [of an_max_tokens]
      assign_if_else_other [of an_max_tokens])

lemma an_messages_eq:
  "an_messages (toAnthropicPayload c v) =
     (if resolveTemplate (userPromptTemplate c) (sampleInputs c ++ v) = [] then []
      else [\<lparr>a_role = anthropic_user,
             a_content = resolveTemplate (userPromptTemplate c) (sampleInputs c ++ v)\<rparr>])"
  by (simp add: toAnthropicPayload_def Let_def assign_if_other [of an_messages]
      assign_if_else_other [of an_messages]) (simp add: assign_if_def)

lemma an_system_eq:
  "an_system (toAnthropicPayload c v) =
     (if systemPrompt c \<noteq> [] then Some (systemPrompt c) else None)"
  by (simp add: toAnthropicPayload_def Let_def assign_if_other [of an_system]
      assign_if_else_other [of an_system] assign_if_same [of an_system _ "an_system_update h" for h])

section \<open>Matching the placeholder pattern\<close>

lemma takeWhile_stop: "\<not> P y \<Longrightarrow> takeWhile P (xs @ y # ys) = takeWhile P xs"
  by (induction xs) auto

lemma dropWhile_stop: "\<not> P y \<Longrightarrow> dropWhile P (xs @ y # ys) = dropWhile P xs @ y # ys"
  by (induction xs) auto

lemma brace_not_word: "\<not> is_word_char CHR ''{''" "\<not> is_word_char CHR ''}''"
  by (simp_all add: is_word_char_def)

lemma match_here_placeholder:
  assumes "is_identifier k"
  shows "match_here (placeholder k @ post) = Some (placeholder k, k, post)"
proof -
  from assms have k: "k \<noteq> []" and w: "\<forall>c\<in>set k. is_word_char c"
    by (auto simp: is_identifier_def list_all_iff)
  have tw: "takeWhile is_word_char (k @ CHR ''}'' # CHR ''}'' # post) = k"
    using w by (simp add: takeWhile_append2 brace_not_word)
  have dw: "dropWhile is_word_char (k @ CHR ''}'' # CHR ''}'' # post) = CHR ''}'' # CHR ''}'' # post"
    using w by (simp add: dropWhile_append2 brace_not_word)
  show ?thesis
    using k by (simp add: placeholder_def tw dw)
qed

lemma match_here_Some:
  assumes "match_here s = Some (m, k, r)"
  shows "is_identifier k \<and> m = placeholder k \<and> s = m @ r"
proof -
  from assms obtain cs where s: "s = CHR ''{'' # CHR ''{'' # cs"
    by (cases s rule: match_here.cases) (auto split: if_splits)
  let ?w = "takeWhile is_word_char cs" and ?r = "dropWhile is_word_char cs"
  from assms s have w: "?w \<noteq> []" and t: "take 2 ?r = ''}}''" and m: "m = ''{{'' @ ?w @ ''}}''"
    and k: "k = ?w" and r: "r = drop 2 ?r"
    by (auto simp: Let_def split: if_splits)
  have "cs = ?w @ ?r" by simp
  moreover have "?r = take 2 ?r @ drop 2 ?r" by simp
  ultimately have "cs = ?w @ ''}}'' @ r" using t r by metis
  moreover have "list_all is_word_char ?w"
    by (simp add: list_all_iff) (meson set_takeWhileD)
  ultimately show ?thesis using w m k s by (simp add: is_identifier_def placeholder_def)
qed

lemma take2_append_braces:
  "(take 2 (d @ CHR ''{'' # CHR ''{'' # z) = ''}}'') = (take 2 d = ''}}'')"
proof (cases d)
  case Nil
  then show ?thesis by simp
next
  case (Cons a d')
  then show ?thesis by (cases d') auto
qed

lemma drop2_append_braces:
  "take 2 d = ''}}'' \<Longrightarrow> drop 2 (d @ z) = drop 2 d @ z"
  by (cases d; cases "tl d") auto

lemma match_here_append:
  assumes "pre \<noteq> []"
  shows "match_here (pre @ CHR ''{'' # CHR ''{'' # z) =
         map_option (\<lambda>(m, k, r). (m, k, r @ CHR ''{'' # CHR ''{'' # z)) (match_here pre)"
proof (cases pre)
  case Nil
  with assms show ?thesis by simp
next
  case (Cons a as)
  show ?thesis
  proof (cases as)
    case Nil
    then show ?thesis using Cons by (simp add: brace_not_word)
  next
    case (Cons b cs)
    let ?z = "CHR ''{'' # CHR ''{'' # z"
    have pre: "pre = a # b # cs" using Cons \<open>pre = a # as\<close> by simp
    have tw: "takeWhile is_word_char (cs @ ?z) = takeWhile is_word_char cs"
      by (rule takeWhile_stop) (rule brace_not_word)
    have dw: "dropWhile is_word_char (cs @ ?z) = dropWhile is_word_char cs @ ?z"
      by (rule dropWhile_stop) (rule brace_not_word)
    show ?thesis
    proof (cases "a = CHR ''{'' \<and> b = CHR ''{'' \<and> takeWhile is_word_char cs \<noteq> []
                  \<and> take 2 (dropWhile is_word_char cs) = ''}}''")
      case True
      then have "match_here (a # b # cs) =
          Some (''{{'' @ takeWhile is_word_char cs @ ''}}'', takeWhile is_word_char cs,
                drop 2 (dropWhile is_word_char cs))"
        by (simp add: Let_def)
      moreover have "match_here (a # b # cs @ ?z) =
          Some (''{{'' @ takeWhile is_word_char cs @ ''}}'', takeWhile is_word_char cs,
                drop 2 (dropWhile is_word_char cs) @ ?z)"
        using True drop2_append_braces [of "dropWhile is_word_char cs" ?z]
          take2_append_braces [of "dropWhile is_word_char cs" z]
        by (simp only: match_here.simps tw dw Let_def) simp
      ultimately show ?thesis using pre by simp
    next
      case False
      then have "match_here (a # b # cs) = None"
        by (auto simp: Let_def)
      moreover have "match_here (a # b # cs @ ?z) = None"
        using False take2_append_braces [of "dropWhile is_word_char cs" z]
        by (simp only: match_here.simps tw dw Let_def) auto
      ultimately show ?thesis using pre by simp
    qed
  qed
qed

lemma scan_Cons_None: "match_here (c # cs) = None \<Longrightarrow> scan (c # cs) = Unmatched c # scan cs"
  by simp

lemma scan_Cons_Some:
  "match_here (c # cs) = Some (m, k, r) \<Longrightarrow> scan (c # cs) = Matched m k # scan r"
  by simp

lemma scan_append_placeholder:
  assumes "is_identifier k"
  shows "scan (pre @ placeholder k @ post) = scan pre @ Matched (placeholder k) k # scan post"
proof (induction pre rule: scan.induct)
  case 1
  have "placeholder k @ post = CHR ''{'' # (CHR ''{'' # k @ ''}}'' @ post)"
    by (simp add: placeholder_def)
  then show ?case
    using match_here_placeholder [OF assms, of post] by simp
next
  case (2 c cs)
  let ?z = "placeholder k @ post"
  have app: "match_here (c # cs @ ?z) =
      map_option (\<lambda>(m, k', r). (m, k', r @ ?z)) (match_here (c # cs))"
    using match_here_append [of "c # cs" "k @ ''}}'' @ post"] by (simp add: placeholder_def)
  show ?case
  proof (cases "match_here (c # cs)")
    case None
    then have "match_here (c # cs @ ?z) = None" using app by simp
    then have "scan (c # cs @ ?z) = Unmatched c # scan (cs @ ?z)"
      by (rule scan_Cons_None)
    moreover have "scan (c # cs) = Unmatched c # scan cs"
      using None by (rule scan_Cons_None)
    moreover have "scan (cs @ ?z) = scan cs @ Matched (placeholder k) k # scan post"
      using None by (rule 2(1))
    ultimately show ?thesis by (simp only: append_Cons)
  next
    case (Some t)
    obtain m k' r where t: "t = (m, k', r)" by (cases t)
    have here: "match_here (c # cs) = Some (m, k', r)" using Some t by simp
    then have "match_here (c # cs @ ?z) = Some (m, k', r @ ?z)" using app by simp
    then have "scan (c # cs @ ?z) = Matched m k' # scan (r @ ?z)"
      by (rule scan_Cons_Some)
    moreover have "scan (c # cs) = Matched m k' # scan r"
      using here by (rule scan_Cons_Some)
    moreover have "scan (r @ ?z) = scan r @ Matched (placeholder k) k # scan post"
      using Some by (rule 2(2)) (simp_all add: t)
    ultimately show ?thesis by (simp only: append_Cons)
  qed
qed


section \<open>One pass over the template\<close>

lemma scan_Matched:
  "Matched m k \<in> set (scan s) \<Longrightarrow>
     is_identifier k \<and> m = placeholder k \<and> (\<exists>pre post. s = pre @ m @ post)"
proof (induction s rule: scan.induct)
  case 1
  then show ?case by simp
next
  case (2 c cs)
  show ?case
  proof (cases "match_here (c # cs)")
    case None
    then have "Matched m k \<in> set (scan cs)" using 2(3) by simp
    then have "is_identifier k \<and> m = placeholder k \<and> (\<exists>pre post. cs = pre @ m @ post)"
      using None by (rule 2(1) [rotated])
    then obtain pre post where "is_identifier k" "m = placeholder k" "cs = pre @ m @ post"
      by blast
    then have "c # cs = (c # pre) @ m @ post" by simp
    then show ?thesis using \<open>is_identifier k\<close> \<open>m = placeholder k\<close> by blast
  next
    case (Some t)
    obtain m' k' r where t: "t = (m', k', r)" by (cases t)
    have here: "match_here (c # cs) = Some (m', k', r)" using Some t by simp
    then have sc: "scan (c # cs) = Matched m' k' # scan r" by (rule scan_Cons_Some)
    from match_here_Some [OF here]
    have mk: "is_identifier k'" "m' = placeholder k'" "c # cs = m' @ r" by simp_all
    from 2(3) sc have "Matched m k = Matched m' k' \<or> Matched m k \<in> set (scan r)" by simp
    then show ?thesis
    proof
      assume "Matched m k = Matched m' k'"
      then have "m = m'" "k = k'" by simp_all
      moreover have "c # cs = [] @ m' @ r" using mk by simp
      ultimately show ?thesis using mk by blast
    next
      assume "Matched m k \<in> set (scan r)"
      then have "is_identifier k \<and> m = placeholder k \<and> (\<exists>pre post. r = pre @ m @ post)"
        using Some t by (intro 2(2) [of t m' "(k', r)" k' r]) simp_all
      then obtain pre post where "is_identifier k" "m = placeholder k" "r = pre @ m @ post"
        by blast
      then have "c # cs = (m' @ pre) @ m @ post" using mk by simp
      then show ?thesis using \<open>is_identifier k\<close> \<open>m = placeholder k\<close> by blast
    qed
  qed
qed

lemma concat_scan: "concat (map (\<lambda>it. case it of Unmatched c \<Rightarrow> [c] | Matched m k \<Rightarrow> m) (scan s)) = s"
proof (induction s rule: scan.induct)
  case 1
  then show ?case by simp
next
  case (2 c cs)
  show ?case
  proof (cases "match_here (c # cs)")
    case None
    then show ?thesis using 2(1) by simp
  next
    case (Some t)
    obtain m' k' r where t: "t = (m', k', r)" by (cases t)
    have here: "match_here (c # cs) = Some (m', k', r)" using Some t by simp
    then have sc: "scan (c # cs) = Matched m' k' # scan r" by (rule scan_Cons_Some)
    have "concat (map (\<lambda>it. case it of Unmatched c \<Rightarrow> [c] | Matched m k \<Rightarrow> m) (scan r)) = r"
      using Some t by (intro 2(2) [of t m' "(k', r)" k' r]) simp_all
    then have "concat (map (\<lambda>it. case it of Unmatched c \<Rightarrow> [c] | Matched m k \<Rightarrow> m)
                 (scan (c # cs))) = m' @ r"
      unfolding sc by simp
    moreover have "c # cs = m' @ r" using match_here_Some [OF here] by simp
    ultimately show ?thesis by (simp only:)
  qed
qed

lemma replace_all_append:
  assumes "is_identifier k"
  shows "replace_all fn (pre @ placeholder k @ post)
         = replace_all fn pre @ fn (placeholder k) k @ replace_all fn post"
  by (simp add: replace_all_def scan_append_placeholder [OF assms])

lemma resolveTemplate_Some:
  "resolveTemplate (Some t) vars =
     replace_all (\<lambda>_ key. case get_property vars key of Some v \<Rightarrow> v | None \<Rightarrow> ''{{'' @ key @ ''}}'') t"
  by (simp add: resolveTemplate_def replace_all_def)

lemma resolveTemplate_append:
  assumes "is_identifier k"
  shows "resolveTemplate (Some (pre @ placeholder k @ post)) vars
         = resolveTemplate (Some pre) vars
           @ (case get_property vars k of Some v \<Rightarrow> v | None \<Rightarrow> placeholder k)
           @ resolveTemplate (Some post) vars"
proof -
  have "(case get_property vars k of Some v \<Rightarrow> v | None \<Rightarrow> ''{{'' @ k @ ''}}'')
        = (case get_property vars k of Some v \<Rightarrow> v | None \<Rightarrow> placeholder k)"
    unfolding placeholder_def ..
  then show ?thesis
    by (simp only: resolveTemplate_Some replace_all_append [OF assms])
qed

lemma resolveTemplate_scan:
  "resolveTemplate (Some t) vars =
     concat (map (\<lambda>it. case it of Unmatched c \<Rightarrow> [c]
                        | Matched m key \<Rightarrow> (case get_property vars key of Some v \<Rightarrow> v | None \<Rightarrow> m))
                 (scan t))"
proof -
  have "(case it of Unmatched c \<Rightarrow> [c]
          | Matched m key \<Rightarrow> (case get_property vars key of Some v \<Rightarrow> v | None \<Rightarrow> ''{{'' @ key @ ''}}''))
        = (case it of Unmatched c \<Rightarrow> [c]
          | Matched m key \<Rightarrow> (case get_property vars key of Some v \<Rightarrow> v | None \<Rightarrow> m))"
    if "it \<in> set (scan t)" for it
  proof (cases it)
    case (Unmatched c)
    then show ?thesis by simp
  next
    case (Matched m key)
    then have "m = placeholder key" using that scan_Matched by blast
    then show ?thesis using Matched by (simp add: placeholder_def split: option.split)
  qed
  then show ?thesis
    unfolding resolveTemplate_Some replace_all_def by (simp cong: map_cong)
qed

section \<open>The names captured by the pattern\<close>

lemma js_slice_placeholder: "js_slice 2 (-2) (placeholder k) = k"
  by (simp add: js_slice_def placeholder_def Let_def)

lemma matches_captured:
  "map (js_slice 2 (-2))
     (concat (map (\<lambda>it. case it of Unmatched c \<Rightarrow> [] | Matched m key \<Rightarrow> [m]) (scan s)))
   = captured s"
proof -
  have "map (js_slice 2 (-2)) (case it of Unmatched c \<Rightarrow> [] | Matched m key \<Rightarrow> [m])
        = (case it of Unmatched c \<Rightarrow> [] | Matched m key \<Rightarrow> [key])"
    if "it \<in> set (scan s)" for it
  proof (cases it)
    case (Unmatched c)
    then show ?thesis by simp
  next
    case (Matched m key)
    then have "m = placeholder key" using that scan_Matched by blast
    then show ?thesis using Matched by (simp add: js_slice_placeholder)
  qed
  then show ?thesis
    unfolding captured_def map_concat by (simp add: comp_def cong: map_cong)
qed

lemma extractTemplateVars_Some: "extractTemplateVars (Some s) = new_Set (captured s)"
proof -
  let ?ms = "concat (map (\<lambda>it. case it of Unmatched c \<Rightarrow> [] | Matched m key \<Rightarrow> [m]) (scan s))"
  have "(case match_all s of None \<Rightarrow> [] | Some ms \<Rightarrow> ms) = ?ms"
    by (simp add: match_all_def Let_def)
  then have "extractTemplateVars (Some s) = new_Set (map (js_slice 2 (-2)) ?ms)"
    by (simp add: extractTemplateVars_def)
  then show ?thesis by (simp only: matches_captured)
qed

lemma extractVariables_eq: "extractVariables t = extractTemplateVars t"
  by (simp add: extractVariables_def extractTemplateVars_def)

lemma captured_append:
  "is_identifier k \<Longrightarrow> captured (pre @ placeholder k @ post) = captured pre @ k # captured post"
  by (simp add: captured_def scan_append_placeholder)

lemma set_captured:
  "set (captured s) = {k. is_identifier k \<and> (\<exists>pre post. s = pre @ placeholder k @ post)}"
proof (intro set_eqI iffI)
  fix k
  assume "k \<in> set (captured s)"
  then obtain it where "it \<in> set (scan s)"
    and "k \<in> set (case it of Unmatched c \<Rightarrow> [] | Matched m key \<Rightarrow> [key])"
    by (auto simp: captured_def)
  then obtain m where "Matched m k \<in> set (scan s)" by (cases it) auto
  from scan_Matched [OF this]
  show "k \<in> {k. is_identifier k \<and> (\<exists>pre post. s = pre @ placeholder k @ post)}" by auto
next
  fix k
  assume "k \<in> {k. is_identifier k \<and> (\<exists>pre post. s = pre @ placeholder k @ post)}"
  then obtain pre post where "is_identifier k" "s = pre @ placeholder k @ post" by blast
  then show "k \<in> set (captured s)" by (simp add: captured_append)
qed

section \<open>Insertion order of a set\<close>

lemma set_first_occurrences: "set (first_occurrences xs) = set xs"
  by (induction xs rule: first_occurrences.induct) auto

lemma distinct_first_occurrences: "distinct (first_occurrences xs)"
  by (induction xs rule: first_occurrences.induct) (auto simp: set_first_occurrences)

lemma filter_swap: "filter P (filter Q xs) = filter Q (filter P xs)"
  by (induction xs) auto

lemma filter_absorb: "(\<And>y. P y \<Longrightarrow> Q y) \<Longrightarrow> filter P (filter Q xs) = filter P xs"
  by (induction xs) auto

lemma first_occurrences_filter:
  "first_occurrences (filter P xs) = filter P (first_occurrences xs)"
proof (induction xs rule: first_occurrences.induct)
  case 1
  then show ?case by simp
next
  case (2 x xs)
  let ?ne = "\<lambda>y. y \<noteq> x"
  have ih: "first_occurrences (filter P (filter ?ne xs)) = filter P (first_occurrences (filter ?ne xs))"
    by (rule 2)
  show ?case
  proof (cases "P x")
    case True
    have "first_occurrences (filter P (x # xs)) = x # first_occurrences (filter ?ne (filter P xs))"
      using True by (simp del: filter_filter)
    also have "filter ?ne (filter P xs) = filter P (filter ?ne xs)"
      by (rule filter_swap)
    also have "x # first_occurrences (filter P (filter ?ne xs)) = filter P (first_occurrences (x # xs))"
      using True by (simp only: ih first_occurrences.simps filter.simps if_True)
    finally show ?thesis .
  next
    case False
    have "filter P (filter ?ne xs) = filter P xs"
      using False by (intro filter_absorb) auto
    then have "first_occurrences (filter P xs) = filter P (first_occurrences (filter ?ne xs))"
      using ih by (simp only:)
    then show ?thesis using False
      by (simp only: first_occurrences.simps filter.simps if_False)
  qed
qed

lemma first_occurrences_distinct: "distinct xs \<Longrightarrow> first_occurrences xs = xs"
proof (induction xs)
  case Nil
  then show ?case by simp
next
  case (Cons x xs)
  then have "filter (\<lambda>y. y \<noteq> x) xs = xs" by (auto simp: filter_id_conv)
  then show ?case using Cons by simp
qed

lemma first_occurrences_idem: "first_occurrences (first_occurrences xs) = first_occurrences xs"
  by (simp add: first_occurrences_distinct distinct_first_occurrences)

lemma first_occurrences_append:
  "first_occurrences (xs @ ys)
   = first_occurrences xs @ filter (\<lambda>y. y \<notin> set xs) (first_occurrences ys)"
proof (induction xs arbitrary: ys rule: first_occurrences.induct)
  case 1
  then show ?case by simp
next
  case (2 x xs)
  have "first_occurrences ((x # xs) @ ys)
        = x # first_occurrences (filter (\<lambda>y. y \<noteq> x) xs @ filter (\<lambda>y. y \<noteq> x) ys)"
    by simp
  also have "\<dots> = x # first_occurrences (filter (\<lambda>y. y \<noteq> x) xs)
        @ filter (\<lambda>y. y \<notin> set (filter (\<lambda>y. y \<noteq> x) xs))
            (first_occurrences (filter (\<lambda>y. y \<noteq> x) ys))"
    by (simp only: 2 append_Cons)
  also have "filter (\<lambda>y. y \<notin> set (filter (\<lambda>y. y \<noteq> x) xs))
            (first_occurrences (filter (\<lambda>y. y \<noteq> x) ys))
        = filter (\<lambda>y. y \<notin> set (x # xs)) (first_occurrences ys)"
    by (auto simp: first_occurrences_filter intro: filter_cong)
  finally show ?case by simp
qed

lemma foldl_set_add:
  "foldl set_add acc xs = acc @ filter (\<lambda>y. y \<notin> set acc) (first_occurrences xs)"
proof (induction xs arbitrary: acc)
  case Nil
  then show ?case by simp
next
  case (Cons x xs)
  show ?case
  proof (cases "x \<in> set acc")
    case True
    then have "filter (\<lambda>y. y \<notin> set acc) (filter (\<lambda>y. y \<noteq> x) (first_occurrences xs))
               = filter (\<lambda>y. y \<notin> set acc) (first_occurrences xs)"
      by (auto intro: filter_cong)
    then show ?thesis using True Cons [of acc]
      by (simp add: set_add_def first_occurrences_filter)
  next
    case False
    have "filter (\<lambda>y. y \<notin> set (acc @ [x])) (first_occurrences xs)
          = filter (\<lambda>y. y \<notin> set acc) (filter (\<lambda>y. y \<noteq> x) (first_occurrences xs))"
      by (auto intro: filter_cong)
    then show ?thesis using False Cons [of "acc @ [x]"]
      by (simp add: set_add_def first_occurrences_filter)
  qed
qed

lemma new_Set_eq: "new_Set xs = first_occurrences xs"
  by (simp add: new_Set_def foldl_set_add)

lemma first_occurrences_parts:
  "first_occurrences (first_occurrences xs @ k # first_occurrences ys)
   = first_occurrences (xs @ k # ys)"
proof -
  have "first_occurrences (k # first_occurrences ys) = first_occurrences (k # ys)"
    by (simp add: first_occurrences_filter [symmetric] first_occurrences_idem)
  then show ?thesis
    by (simp only: first_occurrences_append [of "first_occurrences xs"]
          first_occurrences_append [of xs] first_occurrences_idem set_first_occurrences)
qed


lemma get_property_own: "vars k = Some x \<Longrightarrow> get_property vars k = Some x"
  by (simp add: get_property_def)





text \<open>
  Braces of the template and an inserted value can join into a new placeholder, also when
  no value holds a brace: \<open>{{{{a}}b}}\<close> with an empty value for \<open>a\<close> resolves to
  \<open>{{b}}\<close>, which a second pass resolves again.
\<close>

lemma resolveTemplate_joined_braces:
  "extractTemplateVars (Some ''{{{{a}}b}}'') = [''a'']
   \<and> resolveTemplate (Some ''{{{{a}}b}}'') [''a'' \<mapsto> [], ''b'' \<mapsto> ''X''] = ''{{b}}''
   \<and> resolveTemplate (Some ''{{b}}'') [''a'' \<mapsto> [], ''b'' \<mapsto> ''X''] = ''X''"
  by code_simp

section \<open>The payload builders\<close>

text \<open>
  Claim C1. In the payload of \<open>toOpenRouterPayload\<close>, \<open>top_p\<close> is present exactly when
  \<open>topP\<close> is set and is not 1, and then it is \<open>topP\<close>; \<open>temperature\<close> is whatever the
  configuration holds, so it is present whenever it is set, the default 1 included.
\<close>

theorem toOpenRouterPayload_top_p_temperature:
  "(or_top_p (toOpenRouterPayload config variables) \<noteq> None
      \<longleftrightarrow> topP config \<noteq> None \<and> topP config \<noteq> Some (Finite 1))
   \<and> (or_top_p (toOpenRouterPayload config variables) \<noteq> None
      \<longrightarrow> or_top_p (toOpenRouterPayload config variables) = topP config)
   \<and> or_temperature (toOpenRouterPayload config variables) = temperature config"
  by (simp add: or_top_p_eq or_temperature_eq)

theorem toOpenRouterPayload_top_p_temperature_witness:
  "or_top_p (toOpenRouterPayload (baseConfig\<lparr>topP := Some (Finite (9 / 10))\<rparr>) Map.empty)
     = Some (Finite (9 / 10))
   \<and> or_temperature (toOpenRouterPayload (baseConfig\<lparr>topP := Some (Finite (9 / 10))\<rparr>) Map.empty)
     = Some (Finite 1)
   \<and> or_top_p (toOpenRouterPayload baseConfig Map.empty) = None"
  using toOpenRouterPayload_top_p_temperature
          [of "baseConfig\<lparr>topP := Some (Finite (9 / 10))\<rparr>" Map.empty]
        toOpenRouterPayload_top_p_temperature [of baseConfig Map.empty]
  by (simp add: baseConfig_def)

text \<open>
  Claim C2, as stated, fails where the model string ends with \<open>/\<close>: the last segment is
  then empty, and the builder keeps the whole string (\<open>pop() || model\<close>).
\<close>

theorem toAnthropicPayload_model_counterexample:
  "an_model (toAnthropicPayload (baseConfig\<lparr>model := ''anthropic/''\<rparr>) Map.empty)
     \<noteq> last (js_split CHR ''/'' ''anthropic/'')"
  by (simp add: an_model_eq baseConfig_def)

text \<open>
  Claim C2, amended. The payload of \<open>toAnthropicPayload\<close> always has \<open>max_tokens\<close>:
  \<open>maxTokens\<close> when that is truthy, 4096 otherwise. Its \<open>model\<close> is the last
  \<open>/\<close>-delimited segment of the configuration's model string (the text after the last
  \<open>/\<close>) when that segment is not empty, and the whole model string when it is empty; a
  model string without \<open>/\<close> passes through unchanged.
\<close>

theorem toAnthropicPayload_max_tokens_model:
  "an_max_tokens (toAnthropicPayload config variables)
     = (if truthy (maxTokens config) then the (maxTokens config) else Finite 4096)
   \<and> an_model (toAnthropicPayload config variables)
     = (if last (js_split CHR ''/'' (model config)) = [] then model config
        else last (js_split CHR ''/'' (model config)))
   \<and> last (js_split CHR ''/'' (model config))
     = rev (takeWhile (\<lambda>c. c \<noteq> CHR ''/'') (rev (model config)))
   \<and> (CHR ''/'' \<notin> set (model config)
      \<longrightarrow> an_model (toAnthropicPayload config variables) = model config)"
  using js_split_single [of "CHR ''/''" "model config"]
  by (auto simp: an_max_tokens_eq an_model_eq last_js_split)

theorem toAnthropicPayload_max_tokens_model_witness:
  "an_model (toAnthropicPayload (baseConfig\<lparr>model := ''anthropic/claude-x''\<rparr>) Map.empty)
     = ''claude-x''
   \<and> an_model (toAnthropicPayload (baseConfig\<lparr>model := ''claude-x''\<rparr>) Map.empty) = ''claude-x''
   \<and> an_max_tokens (toAnthropicPayload (baseConfig\<lparr>maxTokens := Some (Finite 0)\<rparr>) Map.empty)
     = Finite 4096
   \<and> an_max_tokens (toAnthropicPayload (baseConfig\<lparr>maxTokens := Some (Finite 2048)\<rparr>) Map.empty)
     = Finite 2048"
  using toAnthropicPayload_max_tokens_model
          [of "baseConfig\<lparr>model := ''anthropic/claude-x''\<rparr>" Map.empty]
        toAnthropicPayload_max_tokens_model [of "baseConfig\<lparr>model := ''claude-x''\<rparr>" Map.empty]
        toAnthropicPayload_max_tokens_model
          [of "baseConfig\<lparr>maxTokens := Some (Finite 0)\<rparr>" Map.empty]
        toAnthropicPayload_max_tokens_model
          [of "baseConfig\<lparr>maxTokens := Some (Finite 2048)\<rparr>" Map.empty]
  by (simp add: baseConfig_def)

text \<open>
  Claim C3. The \<open>messages\<close> of the Anthropic payload hold the resolved user prompt as one
  user turn, or nothing when it is empty: at most one entry, every entry a user turn, none
  with the role \<open>system\<close>. The system prompt is the top-level \<open>system\<close> field, present
  exactly when \<open>systemPrompt\<close> is not empty.
\<close>

theorem toAnthropicPayload_messages_system:
  "an_messages (toAnthropicPayload config variables)
     = (if resolveTemplate (userPromptTemplate config) (sampleInputs config ++ variables) = []
        then []
        else [\<lparr>a_role = anthropic_user,
               a_content = resolveTemplate (userPromptTemplate config)
                             (sampleInputs config ++ variables)\<rparr>])
   \<and> length (an_messages (toAnthropicPayload config variables)) \<le> 1
   \<and> (\<forall>m \<in> set (an_messages (toAnthropicPayload config variables)).
        a_role m = anthropic_user \<and> role_string (a_role m) \<noteq> ''system'')
   \<and> (systemPrompt config \<noteq> []
      \<longrightarrow> an_system (toAnthropicPayload config variables) = Some (systemPrompt config))
   \<and> (systemPrompt config = []
      \<longrightarrow> an_system (toAnthropicPayload config variables) = None)"
  by (simp add: an_messages_eq an_system_eq)

theorem toAnthropicPayload_messages_system_witness:
  "an_messages (toAnthropicPayload
       (baseConfig\<lparr>systemPrompt := ''You are helpful.'', userPromptTemplate := Some ''Hello!''\<rparr>)
       Map.empty)
     = [\<lparr>a_role = anthropic_user, a_content = ''Hello!''\<rparr>]
   \<and> an_system (toAnthropicPayload
       (baseConfig\<lparr>systemPrompt := ''You are helpful.'', userPromptTemplate := Some ''Hello!''\<rparr>)
       Map.empty)
     = Some ''You are helpful.''
   \<and> an_system (toAnthropicPayload baseConfig Map.empty) = None"
  using toAnthropicPayload_messages_system
          [of "baseConfig\<lparr>systemPrompt := ''You are helpful.'',
                          userPromptTemplate := Some ''Hello!''\<rparr>" Map.empty]
        toAnthropicPayload_messages_system [of baseConfig Map.empty]
  by (simp add: baseConfig_def resolveTemplate_def replace_all_def)

section \<open>The template resolver\<close>

text \<open>
  Claim C4. The claim, like the comment on \<open>resolveTemplate\<close> (variables not found in
  \<open>vars\<close> remain as \<open>{{variable}}\<close>), has a placeholder left as it is when its key is
  absent from the variables. The code reads \<open>vars[key]\<close> without asking whether the key is
  the object's own: for the empty object \<open>{}\<close> the key \<open>constructor\<close> is absent, and
  \<open>{{constructor}}\<close> is replaced by the text of the inherited function.
\<close>

theorem resolveTemplate_inherited_key:
  "Map.empty ''constructor'' = (None :: string option)
   \<and> resolveTemplate (Some ''{{constructor}}'') Map.empty
       = ''function Object() { [native code] }''
   \<and> resolveTemplate (Some ''{{constructor}}'') Map.empty \<noteq> ''{{constructor}}''
   \<and> resolveTemplate (Some ''Hello {{name}}!'') Map.empty = ''Hello {{name}}!''"
  by code_simp




text \<open>
  Claim C6. \<open>extractVariables\<close> (and \<open>extractTemplateVars\<close>, the same function) returns
  no name twice; the names it returns are exactly the identifiers \<open>k\<close> for which \<open>{{k}}\<close>
  occurs in the template; they come in first-occurrence order: for a placeholder \<open>{{k}}\<close>
  anywhere in the template, the result is the names of the text before it, then \<open>k\<close>, then
  the names of the text after it, each name kept where it comes first. An absent or empty
  template gives the empty sequence, and \<open>{{a}} {{b}} {{a}}\<close> gives \<open>a, b\<close>.
\<close>

theorem extractVariables_first_occurrences:
  "extractVariables None = [] \<and> extractVariables (Some []) = []
   \<and> distinct (extractVariables template)
   \<and> set (extractVariables (Some t))
       = {k. is_identifier k \<and> (\<exists>pre post. t = pre @ placeholder k @ post)}
   \<and> (is_identifier k
      \<longrightarrow> extractVariables (Some (pre @ placeholder k @ post))
          = first_occurrences (extractVariables (Some pre) @ k # extractVariables (Some post)))
   \<and> extractVariables (Some ''{{a}} {{b}} {{a}}'') = [''a'', ''b'']
   \<and> extractTemplateVars template = extractVariables template"
proof (intro conjI impI)
  show "extractVariables None = []"
    by (simp add: extractVariables_def new_Set_def)
  show "extractVariables (Some []) = []"
    by (simp add: extractVariables_def new_Set_def match_all_def)
  show "distinct (extractVariables template)"
    by (cases template)
       (simp_all add: extractVariables_eq extractTemplateVars_Some new_Set_eq
          distinct_first_occurrences, simp add: extractTemplateVars_def new_Set_def)
  show "set (extractVariables (Some t))
       = {k. is_identifier k \<and> (\<exists>pre post. t = pre @ placeholder k @ post)}"
    by (simp only: extractVariables_eq extractTemplateVars_Some new_Set_eq
          set_first_occurrences set_captured)
  show "extractVariables (Some ''{{a}} {{b}} {{a}}'') = [''a'', ''b'']"
    by code_simp
  show "extractTemplateVars template = extractVariables template"
    by (simp add: extractVariables_eq)
next
  assume "is_identifier k"
  then show "extractVariables (Some (pre @ placeholder k @ post))
          = first_occurrences (extractVariables (Some pre) @ k # extractVariables (Some post))"
    by (simp only: extractVariables_eq extractTemplateVars_Some new_Set_eq captured_append
          first_occurrences_parts)
qed

theorem extractVariables_first_occurrences_witness:
  "is_identifier ''b''
   \<and> extractVariables (Some (''{{a}} '' @ placeholder ''b'' @ '' {{a}}'')) = [''a'', ''b'']
   \<and> extractVariables (Some ''{{a}} '') = [''a'']
   \<and> extractVariables (Some '' {{a}}'') = [''a'']"
proof -
  have id: "is_identifier ''b''" by (simp add: is_identifier_def is_word_char_def)
  have e: "extractVariables (Some ''{{a}} '') = [''a'']"
    "extractVariables (Some '' {{a}}'') = [''a'']"
    by code_simp+
  show ?thesis
    using extractVariables_first_occurrences [of None "[]" "''b''" "''{{a}} ''" "'' {{a}}''"] id
    by (simp add: e)
qed

text \<open>
  Claim C10. \<open>resolveTemplate\<close> makes one pass, left to right: the scan cuts the template
  into unmatched characters and placeholders, which put together again are the template,
  and the result is these pieces in order, each placeholder replaced once by its value or
  left as it is. A value is inserted as it is: a placeholder \<open>{{other}}\<close> inside the value
  of \<open>k\<close> stands in the result unchanged, also when \<open>other\<close> is a key of the map.
\<close>

theorem resolveTemplate_single_pass:
  "resolveTemplate (Some t) vars
     = concat (map (\<lambda>it. case it of
                           Unmatched c \<Rightarrow> [c]
                         | Matched m key \<Rightarrow>
                             (case get_property vars key of Some v \<Rightarrow> v | None \<Rightarrow> m))
                   (scan t))
   \<and> concat (map (\<lambda>it. case it of Unmatched c \<Rightarrow> [c] | Matched m key \<Rightarrow> m) (scan t)) = t
   \<and> (is_identifier k \<and> get_property vars k = Some (a @ placeholder other @ b)
      \<longrightarrow> resolveTemplate (Some (pre @ placeholder k @ post)) vars
          = resolveTemplate (Some pre) vars @ a @ placeholder other @ b
            @ resolveTemplate (Some post) vars)
   \<and> (is_identifier k \<and> vars k = Some (a @ placeholder other @ b)
      \<longrightarrow> resolveTemplate (Some (pre @ placeholder k @ post)) vars
          = resolveTemplate (Some pre) vars @ a @ placeholder other @ b
            @ resolveTemplate (Some post) vars)"
  using resolveTemplate_scan [of t vars] concat_scan [of t]
    resolveTemplate_append [of k pre post vars]
    get_property_own [of vars k "a @ placeholder other @ b"]
  by simp

theorem resolveTemplate_single_pass_witness:
  "is_identifier ''a''
   \<and> [''a'' \<mapsto> ''<{{b}}>'', ''b'' \<mapsto> ''X''] ''a'' = Some (''<'' @ placeholder ''b'' @ ''>'')
   \<and> resolveTemplate (Some (''1 '' @ placeholder ''a'' @ '' 2 {{b}}''))
        [''a'' \<mapsto> ''<{{b}}>'', ''b'' \<mapsto> ''X''] = ''1 <{{b}}> 2 X''"
proof -
  let ?v = "[''a'' \<mapsto> ''<{{b}}>'', ''b'' \<mapsto> ''X'']"
  have id: "is_identifier ''a''" by (simp add: is_identifier_def is_word_char_def)
  have v: "?v ''a'' = Some (''<'' @ placeholder ''b'' @ ''>'')" by (simp add: placeholder_def)
  have p: "resolveTemplate (Some ''1 '') ?v = ''1 ''"
    "resolveTemplate (Some '' 2 {{b}}'') ?v = '' 2 X''"
    by code_simp+
  have "resolveTemplate (Some (''1 '' @ placeholder ''a'' @ '' 2 {{b}}'')) ?v
          = resolveTemplate (Some ''1 '') ?v @ ''<'' @ placeholder ''b'' @ ''>''
            @ resolveTemplate (Some '' 2 {{b}}'') ?v"
    using resolveTemplate_single_pass [of "''1 '' @ placeholder ''a'' @ '' 2 {{b}}''" ?v "''a''"
        "''<''" "''b''" "''>''" "''1 ''" "'' 2 {{b}}''"] id v
    by blast
  then show ?thesis using id v by (simp add: p placeholder_def)
qed

section \<open>Prices\<close>

text \<open>
  Claim C7. \<open>priceToCostPerMillion\<close> tests \<open>isNaN\<close> and answers \<open>null\<close> for a price that
  does not parse; \<open>formatPrice\<close> has no such test, and for the same input the \<open>NaN\<close>
  reaches the string it returns.
\<close>

theorem formatPrice_unparsable:
  "formatPrice (Some ''abc'') = ''$NaN/M'' \<and> priceToCostPerMillion (Some ''abc'') = None"
  by (simp add: formatPrice_def priceToCostPerMillion_def parseFloat_def is_whitespace_def
      is_digit_def number_times_def toFixed_def isNaN_def)

section \<open>Providers and supported parameters\<close>

text \<open>
  Claim C8, as stated, fails for a model id that begins with \<open>/\<close>: its first segment is
  the empty string, and \<open>getProvider\<close> answers \<open>unknown\<close>.
\<close>

theorem getProvider_counterexample:
  "getProvider ''/foo'' \<noteq> hd (js_split CHR ''/'' ''/foo'')"
  by (simp add: getProvider_def)

text \<open>
  Claim C8, amended. \<open>getProvider\<close> returns the first \<open>/\<close>-delimited segment of the model
  id (the text before the first \<open>/\<close>) when that segment is not empty, and the sentinel
  \<open>unknown\<close> when it is empty, as for the empty string; a non-empty id without \<open>/\<close> is
  returned whole, and \<open>meta-llama/llama-3/70b\<close> gives \<open>meta-llama\<close>.
\<close>

theorem getProvider_first_segment:
  "getProvider modelId
     = (if hd (js_split CHR ''/'' modelId) = [] then ''unknown''
        else hd (js_split CHR ''/'' modelId))
   \<and> hd (js_split CHR ''/'' modelId) = takeWhile (\<lambda>c. c \<noteq> CHR ''/'') modelId
   \<and> getProvider [] = ''unknown''
   \<and> (CHR ''/'' \<notin> set modelId \<and> modelId \<noteq> [] \<longrightarrow> getProvider modelId = modelId)
   \<and> getProvider ''meta-llama/llama-3/70b'' = ''meta-llama''"
  using js_split_not_Nil [of "CHR ''/''" modelId] js_split_single [of "CHR ''/''" modelId]
  by (auto simp: getProvider_def hd_js_split [symmetric] split: list.splits)

theorem getProvider_first_segment_witness:
  "getProvider ''anthropic/claude-sonnet-4-5'' = ''anthropic''
   \<and> getProvider ''gpt-4o'' = ''gpt-4o''
   \<and> getProvider ''/foo'' = ''unknown''"
  using getProvider_first_segment [of "''anthropic/claude-sonnet-4-5''"]
        getProvider_first_segment [of "''gpt-4o''"]
        getProvider_first_segment [of "''/foo''"]
  by simp

text \<open>
  Claim C9. The check \<open>has\<close> over the supported parameters of a model answers true for
  every name when the model's \<open>supported_parameters\<close> is absent or empty (and when no
  model is selected); otherwise it answers true exactly for the names in the sequence.
\<close>

theorem has_supported_parameters:
  "(supported_parameters m = None \<or> supported_parameters m = Some []
      \<longrightarrow> has (supportedParams (Some m)) p)
   \<and> (supported_parameters m = Some ps \<and> ps \<noteq> []
      \<longrightarrow> has (supportedParams (Some m)) p = (p \<in> set ps))
   \<and> has (supportedParams None) p"
  by (auto simp: has_def supportedParams_def)

theorem has_supported_parameters_witness:
  "has (supportedParams (Some \<lparr>model_id = ''openai/gpt-4o'', model_name = ''GPT-4o'',
          context_length = Finite 128000, architecture = None, pricing = None,
          top_provider = None, supported_parameters = None\<rparr>)) ''top_k''
   \<and> has (supportedParams (Some \<lparr>model_id = ''openai/gpt-4o'', model_name = ''GPT-4o'',
          context_length = Finite 128000, architecture = None, pricing = None,
          top_provider = None,
          supported_parameters = Some [''temperature'', ''top_p'']\<rparr>)) ''top_p''
   \<and> \<not> has (supportedParams (Some \<lparr>model_id = ''openai/gpt-4o'', model_name = ''GPT-4o'',
          context_length = Finite 128000, architecture = None, pricing = None,
          top_provider = None,
          supported_parameters = Some [''temperature'', ''top_p'']\<rparr>)) ''top_k''"
  using has_supported_parameters
          [of "\<lparr>model_id = ''openai/gpt-4o'', model_name = ''GPT-4o'',
                context_length = Finite 128000, architecture = None, pricing = None,
                top_provider = None, supported_parameters = None\<rparr>" "''top_k''"]
        has_supported_parameters
          [of "\<lparr>model_id = ''openai/gpt-4o'', model_name = ''GPT-4o'',
                context_length = Finite 128000, architecture = None, pricing = None,
                top_provider = None,
                supported_parameters = Some [''temperature'', ''top_p'']\<rparr>"
              "''top_p''" "[''temperature'', ''top_p'']"]
        has_supported_parameters
          [of "\<lparr>model_id = ''openai/gpt-4o'', model_name = ''GPT-4o'',
                context_length = Finite 128000, architecture = None, pricing = None,
                top_provider = None,
                supported_parameters = Some [''temperature'', ''top_p'']\<rparr>"
              "''top_k''" "[''temperature'', ''top_p'']"]
  by simp

end
